theory Spec2Isabelle
  imports Complex_Main
begin

section \<open>Telemetry samples and segments\<close>

text \<open>
  One row of the telemetry table, with the column names of the CSV file. The gear is an
  integer; the other columns are numbers that the segmentation only copies and compares
  with the sentinel \<open>-1\<close>, so exact rationals stand for them.
\<close>

record sample =
  Time :: rat
  RPM :: rat
  CurrentGear :: int
  RevMatch :: rat
  MPH :: rat

text \<open>The two dictionaries that \<open>graph.py\<close> appends to its segment lists.\<close>

record rpm_segment =
  time :: "rat list"
  rpm :: "rat list"
  gear :: int

record revmatch_segment =
  rm_time :: "rat list"
  revmatch :: "rat list"
  rm_gear :: int

datatype error = IndexError | KeyError | ValueError | FileNotFoundError

section \<open>The segmentation loop of \<open>graph.py\<close>\<close>

definition new_rpm_segment :: "sample \<Rightarrow> rpm_segment" where
  "new_rpm_segment s = \<lparr>time = [Time s], rpm = [RPM s], gear = CurrentGear s\<rparr>"

text \<open>
  \<open>rpm_segments[-1]['time'].append(t); rpm_segments[-1]['rpm'].append(r)\<close>: the last
  dictionary of the list grows; indexing an empty list raises.
\<close>

definition extend_rpm :: "sample \<Rightarrow> rpm_segment list \<Rightarrow> error + rpm_segment list" where
  "extend_rpm s segs =
     (if segs = [] then Inl IndexError
      else Inr (butlast segs @
             [(last segs)\<lparr>time := time (last segs) @ [Time s],
                          rpm := rpm (last segs) @ [RPM s]\<rparr>]))"

definition rpm_step :: "sample list \<Rightarrow> nat \<Rightarrow> rpm_segment list \<Rightarrow> error + rpm_segment list" where
  "rpm_step df i segs =
     (if i = 0 then Inr (segs @ [new_rpm_segment (df ! i)])
      else if CurrentGear (df ! i) = CurrentGear (df ! (i - 1)) then extend_rpm (df ! i) segs
      else Inr (segs @ [new_rpm_segment (df ! i)]))"

definition new_revmatch_segment :: "sample \<Rightarrow> revmatch_segment" where
  "new_revmatch_segment s =
     \<lparr>rm_time = [Time s], revmatch = [RevMatch s], rm_gear = CurrentGear s - 1\<rparr>"

definition extend_revmatch :: "sample \<Rightarrow> revmatch_segment list \<Rightarrow> revmatch_segment list" where
  "extend_revmatch s segs =
     butlast segs @
       [(last segs)\<lparr>rm_time := rm_time (last segs) @ [Time s],
                    revmatch := revmatch (last segs) @ [RevMatch s]\<rparr>]"

text \<open>
  The four ways through the rev-match part of the loop body, in the order the source tests
  them: the outer \<open>if\<close> fails; the first inner \<open>if\<close>; the \<open>elif\<close>; the final \<open>else\<close>.
\<close>

datatype revmatch_branch = NotValid | StartNew | Extend | DifferentGear

definition revmatch_branch_of :: "sample list \<Rightarrow> nat \<Rightarrow> revmatch_segment list \<Rightarrow> revmatch_branch" where
  "revmatch_branch_of df i segs =
     (if CurrentGear (df ! i) > 1 \<and> RevMatch (df ! i) \<noteq> -1 then
        if segs = [] \<or>
           (i > 0 \<and> (CurrentGear (df ! (i - 1)) \<noteq> CurrentGear (df ! i)
                     \<or> RevMatch (df ! (i - 1)) = -1))
        then StartNew
        else if rm_gear (last segs) = CurrentGear (df ! i) - 1 then Extend
        else DifferentGear
      else NotValid)"

definition revmatch_step :: "sample list \<Rightarrow> nat \<Rightarrow> revmatch_segment list \<Rightarrow> revmatch_segment list" where
  "revmatch_step df i segs =
     (case revmatch_branch_of df i segs of
        NotValid \<Rightarrow> segs
      | StartNew \<Rightarrow> segs @ [new_revmatch_segment (df ! i)]
      | Extend \<Rightarrow> extend_revmatch (df ! i) segs
      | DifferentGear \<Rightarrow> segs @ [new_revmatch_segment (df ! i)])"

type_synonym segments = "rpm_segment list \<times> revmatch_segment list"

text \<open>One iteration of the loop body; \<open>df.iloc[i]\<close> raises outside the table.\<close>

definition step :: "sample list \<Rightarrow> nat \<Rightarrow> segments \<Rightarrow> error + segments" where
  "step df i st =
     (if length df \<le> i then Inl IndexError
      else case rpm_step df i (fst st) of
             Inl e \<Rightarrow> Inl e
           | Inr rs \<Rightarrow> Inr (rs, revmatch_step df i (snd st)))"

fun run :: "sample list \<Rightarrow> nat list \<Rightarrow> segments \<Rightarrow> error + segments" where
  "run df [] st = Inr st"
| "run df (i # is) st = (case step df i st of Inl e \<Rightarrow> Inl e | Inr st' \<Rightarrow> run df is st')"

text \<open>\<open>for i in range(len(df))\<close>, from two empty lists.\<close>

definition segmenter :: "sample list \<Rightarrow> error + segments" where
  "segmenter df = run df [0..<length df] ([], [])"

text \<open>The points a segment draws: its two lists read side by side.\<close>

definition rpm_points :: "rpm_segment \<Rightarrow> (rat \<times> rat) list" where
  "rpm_points s = zip (time s) (rpm s)"

definition revmatch_points :: "revmatch_segment \<Rightarrow> (rat \<times> rat) list" where
  "revmatch_points s = zip (rm_time s) (revmatch s)"

text \<open>The test of the outer \<open>if\<close> of the rev-match part, as a predicate on a sample.\<close>

definition valid :: "sample \<Rightarrow> bool" where
  "valid s \<longleftrightarrow> CurrentGear s > 1 \<and> RevMatch s \<noteq> -1"

section \<open>The legend of \<open>graph.py\<close>\<close>

definition gear_colors :: "int \<rightharpoonup> string" where
  "gear_colors =
     [1 \<mapsto> ''#E74C3C'', 2 \<mapsto> ''#F39C12'', 3 \<mapsto> ''#2ECC71'',
      4 \<mapsto> ''#3498DB'', 5 \<mapsto> ''#9B59B6'']"

text \<open>\<open>gear_colors.get(gear, '#000000')\<close>\<close>

definition color_of :: "int \<Rightarrow> string" where
  "color_of g = (case gear_colors g of Some c \<Rightarrow> c | None \<Rightarrow> ''#000000'')"

text \<open>A \<open>Line2D\<close> legend handle, by the two arguments that vary.\<close>

record line2d =
  color :: string
  linestyle :: string

text \<open>\<open>sorted(set([s['gear'] for s in rpm_segments] + [s['gear'] for s in revmatch_segments]))\<close>\<close>

definition all_gears :: "rpm_segment list \<Rightarrow> revmatch_segment list \<Rightarrow> int list" where
  "all_gears rs ms = sorted_list_of_set (set (map gear rs @ map rm_gear ms))"

text \<open>Each legend element is a tuple of handles: the solid line, then the dashed one if any.\<close>

definition legend_element :: "revmatch_segment list \<Rightarrow> int \<Rightarrow> line2d list" where
  "legend_element ms g =
     (if g \<in> set (map rm_gear ms)
      then [\<lparr>color = color_of g, linestyle = ''-''\<rparr>, \<lparr>color = color_of g, linestyle = ''--''\<rparr>]
      else [\<lparr>color = color_of g, linestyle = ''-''\<rparr>])"

definition legend_elements :: "rpm_segment list \<Rightarrow> revmatch_segment list \<Rightarrow> line2d list list" where
  "legend_elements rs ms = map (legend_element ms) (all_gears rs ms)"

text \<open>
  \<open>f'Gear {gear}'\<close> renders the key. The key comes from \<open>df.iloc[i]['CurrentGear']\<close>,
  and \<open>df.iloc[i]\<close> gives the whole row one numeric type: \<open>int64\<close> when every column of
  the table holds integers, \<open>float64\<close> as soon as one column (the time, say) holds a
  fraction. The value of the key is the same integer either way; its text is not.
\<close>

datatype dtype = Int64 | Float64

text \<open>
  The keys that the row type holds exactly: all of \<open>int64\<close>, and the integers up to
  \<open>2^53\<close> in magnitude for \<open>float64\<close>. Beyond these a \<open>float64\<close> key is rounded and
  printed in exponent notation, which is not modelled.
\<close>

definition representable :: "dtype \<Rightarrow> int \<Rightarrow> bool" where
  "representable dt g =
     (case dt of
        Int64 \<Rightarrow> - (2 ^ 63) \<le> g \<and> g < 2 ^ 63
      | Float64 \<Rightarrow> - (2 ^ 53) \<le> g \<and> g \<le> 2 ^ 53)"

text \<open>The decimal text of an integer, as \<open>str\<close> of an \<open>int64\<close> gives it.\<close>

fun digits_of :: "nat \<Rightarrow> string" where
  "digits_of n =
     (if n < 10 then [char_of (48 + n)]
      else digits_of (n div 10) @ [char_of (48 + n mod 10)])"

declare digits_of.simps [simp del]

definition str :: "int \<Rightarrow> string" where
  "str k = (if k < 0 then CHR ''-'' # digits_of (nat (- k)) else digits_of (nat k))"

text \<open>
  The text of a key inside the f-string: the decimal digits for an \<open>int64\<close> key, and the
  digits followed by \<open>.0\<close> for a \<open>float64\<close> key of integral value.
\<close>

definition render_key :: "dtype \<Rightarrow> int \<Rightarrow> string" where
  "render_key dt g = (case dt of Int64 \<Rightarrow> str g | Float64 \<Rightarrow> str g @ ''.0'')"

definition gear_labels :: "dtype \<Rightarrow> rpm_segment list \<Rightarrow> revmatch_segment list \<Rightarrow> string list" where
  "gear_labels dt rs ms = map (\<lambda>g. ''Gear '' @ render_key dt g) (all_gears rs ms)"

text \<open>\<open>ax.legend(legend_elements, gear_labels, ...)\<close> pairs handles with labels.\<close>

definition legend ::
  "dtype \<Rightarrow> rpm_segment list \<Rightarrow> revmatch_segment list \<Rightarrow> (line2d list \<times> string) list" where
  "legend dt rs ms = zip (legend_elements rs ms) (gear_labels dt rs ms)"

section \<open>The configuration file\<close>

text \<open>
  \<open>str.strip()\<close> removes leading and trailing whitespace; on ASCII text the whitespace
  characters are tab to carriage return, the four separators 28 to 31, and the space.
\<close>

definition is_space :: "char \<Rightarrow> bool" where
  "is_space c \<longleftrightarrow> (of_char c :: nat) \<in> {9, 10, 11, 12, 13, 28, 29, 30, 31, 32}"

definition strip :: "string \<Rightarrow> string" where
  "strip s = rev (dropWhile is_space (rev (dropWhile is_space s)))"

text \<open>
  \<open>int(s)\<close> on ASCII text: surrounding whitespace, an optional sign, then decimal digits
  with single underscores allowed between digits; anything else raises \<open>ValueError\<close>.
  The interpreter's cap on the number of digits of a literal is not modelled.
\<close>

definition is_digit :: "char \<Rightarrow> bool" where
  "is_digit c \<longleftrightarrow> 48 \<le> (of_char c :: nat) \<and> (of_char c :: nat) \<le> 57"

definition digit_val :: "char \<Rightarrow> int" where
  "digit_val c = int (of_char c) - 48"

fun digits :: "string \<Rightarrow> int \<Rightarrow> error + int" where
  "digits [] acc = Inr acc"
| "digits (c # cs) acc =
     (if is_digit c then digits cs (10 * acc + digit_val c)
      else if c = CHR ''_'' \<and> cs \<noteq> [] \<and> is_digit (hd cs) then digits cs acc
      else Inl ValueError)"

definition unsigned :: "string \<Rightarrow> error + int" where
  "unsigned s = (if s \<noteq> [] \<and> is_digit (hd s) then digits s 0 else Inl ValueError)"

definition py_int :: "string \<Rightarrow> error + int" where
  "py_int s =
     (case strip s of
        [] \<Rightarrow> Inl ValueError
      | c # cs \<Rightarrow>
          if c = CHR ''-'' then (case unsigned cs of Inl e \<Rightarrow> Inl e | Inr n \<Rightarrow> Inr (- n))
          else if c = CHR ''+'' then unsigned cs
          else unsigned (c # cs))"











section \<open>The ratio analysis of \<open>innefficiency.py\<close>\<close>

text \<open>
  Exact rational arithmetic stands for the floating-point evaluation of the formula; what
  is settled below concerns the lookups and the control flow, not the computed numbers.
\<close>

definition finaldrive :: rat where
  "finaldrive = 61 / 15"

definition gears :: "int \<rightharpoonup> rat" where
  "gears = [1 \<mapsto> 37 / 11, 2 \<mapsto> 41 / 22, 3 \<mapsto> 37 / 28, 4 \<mapsto> 35 / 34, 5 \<mapsto> 32 / 39]"

definition wheelCircumference :: rat where
  "wheelCircumference = 7438402 / 100000"

text \<open>The lambda applied to each row; \<open>gears[...]\<close> raises \<open>KeyError\<close> on a missing key.\<close>

definition theoretical_rpm :: "sample \<Rightarrow> error + rat" where
  "theoretical_rpm row =
     (case gears (CurrentGear row) of
        None \<Rightarrow> Inl KeyError
      | Some r \<Rightarrow> Inr ((1056 * MPH row * finaldrive * r) / wheelCircumference))"

text \<open>\<open>actual['RevMatch'] = actual.apply(..., axis=1)\<close>: row by row, stopping at the first raise.\<close>

fun apply_revmatch :: "sample list \<Rightarrow> error + sample list" where
  "apply_revmatch [] = Inr []"
| "apply_revmatch (row # rows) =
     (case theoretical_rpm row of
        Inl e \<Rightarrow> Inl e
      | Inr v \<Rightarrow>
          (case apply_revmatch rows of
             Inl e \<Rightarrow> Inl e
           | Inr rows' \<Rightarrow> Inr (row\<lparr>RevMatch := v\<rparr> # rows')))"

text \<open>
  \<open>actual.groupby('CurrentGear')\<close>: \<open>len\<close> of it is the number of distinct gears, and
  \<open>get_group(k)\<close> returns the rows of gear \<open>k\<close> or raises \<open>KeyError\<close> when there are none.
\<close>

definition group_count :: "sample list \<Rightarrow> nat" where
  "group_count rows = card (set (map CurrentGear rows))"

definition get_group :: "sample list \<Rightarrow> int \<Rightarrow> error + sample list" where
  "get_group rows k =
     (if filter (\<lambda>row. CurrentGear row = k) rows = [] then Inl KeyError
      else Inr (filter (\<lambda>row. CurrentGear row = k) rows))"

text \<open>
  What the script asks of its libraries, in order. \<open>PlotFitted xs rpms mphs\<close> stands for
  \<open>plt.plot(xs, np.poly1d(np.polyfit(rpms, mphs, 1))(xs), color='blue')\<close>: the call of the
  fitting routine with its arguments, whose result belongs to the library.
\<close>

datatype action =
    PrintDtypes
  | PrintGroup "sample list"
  | PlotTheoretical "rat list" "rat list"
  | PlotFitted "rat list" "rat list" "rat list"
  | Show

text \<open>\<open>np.unique\<close>: the distinct values in ascending order.\<close>

definition unique :: "rat list \<Rightarrow> rat list" where
  "unique xs = sorted_list_of_set (set xs)"

text \<open>
  The body of the loop for one group, after \<open>g.sort_values(by='MPH', inplace=True)\<close>.
  Rows of equal MPH keep their order here; the library does not promise an order for them.
\<close>

definition group_body :: "sample list \<Rightarrow> action list" where
  "group_body g =
     (let g = sort_key MPH g in
      [PrintGroup g,
       PlotTheoretical (map RevMatch g) (map MPH g),
       PlotFitted (unique (map RPM g)) (map RPM g) (map MPH g),
       Show])"

text \<open>
  \<open>for i in range(len(actual))\<close>: the actions performed, and the exception that ended
  the loop, if one did. The fitting routine is taken to return on a non-empty group of
  finite numbers, so the only exception of the loop is the one of \<open>get_group\<close>.
\<close>

fun group_loop :: "sample list \<Rightarrow> nat list \<Rightarrow> action list \<times> error option" where
  "group_loop rows [] = ([], None)"
| "group_loop rows (i # is) =
     (case get_group rows (int i + 1) of
        Inl e \<Rightarrow> ([], Some e)
      | Inr g \<Rightarrow> (group_body g @ fst (group_loop rows is), snd (group_loop rows is)))"

definition ratio_analysis :: "sample list \<Rightarrow> action list \<times> error option" where
  "ratio_analysis df =
     (case apply_revmatch df of
        Inl e \<Rightarrow> ([PrintDtypes], Some e)
      | Inr rows \<Rightarrow>
          (PrintDtypes # fst (group_loop rows [0..<group_count rows]),
           snd (group_loop rows [0..<group_count rows])))"

section \<open>Invariants of the segmentation loop\<close>

text \<open>A sample starts an RPM segment when it is the first or its gear differs from the one before.\<close>

definition boundary :: "sample list \<Rightarrow> nat \<Rightarrow> bool" where
  "boundary df i \<longleftrightarrow> i = 0 \<or> CurrentGear (df ! i) \<noteq> CurrentGear (df ! (i - 1))"

definition rpm_inv :: "sample list \<Rightarrow> nat \<Rightarrow> rpm_segment list \<Rightarrow> bool" where
  "rpm_inv df n rs \<longleftrightarrow>
     (0 < n \<longrightarrow> rs \<noteq> []) \<and>
     (\<forall>s \<in> set rs. length (time s) = length (rpm s) \<and> time s \<noteq> []) \<and>
     concat (map rpm_points rs) = map (\<lambda>s. (Time s, RPM s)) (take n df) \<and>
     map gear rs = map (\<lambda>i. CurrentGear (df ! i)) (filter (boundary df) [0..<n]) \<and>
     map (\<lambda>s. hd (rpm_points s)) rs =
       map (\<lambda>i. (Time (df ! i), RPM (df ! i))) (filter (boundary df) [0..<n])"

definition rm_inv :: "sample list \<Rightarrow> nat \<Rightarrow> revmatch_segment list \<Rightarrow> bool" where
  "rm_inv df n ms \<longleftrightarrow>
     (n = 0 \<longrightarrow> ms = []) \<and>
     (0 < n \<and> valid (df ! (n - 1)) \<longrightarrow>
        ms \<noteq> [] \<and> rm_gear (last ms) = CurrentGear (df ! (n - 1)) - 1) \<and>
     (\<forall>s \<in> set ms. length (rm_time s) = length (revmatch s)) \<and>
     concat (map (\<lambda>m. map (Pair (rm_gear m)) (revmatch_points m)) ms) =
       map (\<lambda>s. (CurrentGear s - 1, Time s, RevMatch s)) (filter valid (take n df))"

definition seg_inv :: "sample list \<Rightarrow> nat \<Rightarrow> segments \<Rightarrow> bool" where
  "seg_inv df n st \<longleftrightarrow> rpm_inv df n (fst st) \<and> rm_inv df n (snd st)"

section \<open>Properties of the segmentation\<close>

lemma run_append:
  "run df (xs @ ys) st = (case run df xs st of Inl e \<Rightarrow> Inl e | Inr st' \<Rightarrow> run df ys st')"
  by (induction xs arbitrary: st) (auto split: sum.splits)

lemma run_snoc:
  "run df [0..<Suc n] st = (case run df [0..<n] st of Inl e \<Rightarrow> Inl e | Inr st' \<Rightarrow> step df n st')"
  by (simp add: run_append split: sum.splits)

lemma rpm_inv_0: "rpm_inv df 0 []"
  by (simp add: rpm_inv_def)

lemma rm_inv_0: "rm_inv df 0 []"
  by (simp add: rm_inv_def)

lemma rpm_new:
  assumes "n < length df" "rpm_inv df n rs" "boundary df n"
  shows "rpm_inv df (Suc n) (rs @ [new_rpm_segment (df ! n)])"
  using assms
  by (simp add: rpm_inv_def new_rpm_segment_def rpm_points_def take_Suc_conv_app_nth)

lemma rpm_extend:
  assumes "n < length df" "rpm_inv df n rs" "\<not> boundary df n"
  shows "\<exists>rs'. extend_rpm (df ! n) rs = Inr rs' \<and> rpm_inv df (Suc n) rs'"
proof -
  from assms(3) have n: "0 < n" by (auto simp: boundary_def)
  with assms(2) have ne: "rs \<noteq> []" by (simp add: rpm_inv_def)
  then obtain bs l where rs: "rs = bs @ [l]" by (metis append_butlast_last_id)
  from assms(2) rs have len: "length (time l) = length (rpm l)" "time l \<noteq> []" "rpm l \<noteq> []"
    by (auto simp: rpm_inv_def)
  show ?thesis
    using assms len unfolding rs
    by (simp add: extend_rpm_def rpm_inv_def rpm_points_def take_Suc_conv_app_nth)
qed

lemma rpm_step_inv:
  assumes "n < length df" "rpm_inv df n rs"
  shows "\<exists>rs'. rpm_step df n rs = Inr rs' \<and> rpm_inv df (Suc n) rs'"
proof (cases "boundary df n")
  case True
  then have "rpm_step df n rs = Inr (rs @ [new_rpm_segment (df ! n)])"
    by (auto simp: rpm_step_def boundary_def)
  with rpm_new[OF assms True] show ?thesis by simp
next
  case False
  then have "rpm_step df n rs = extend_rpm (df ! n) rs"
    by (auto simp: rpm_step_def boundary_def)
  with rpm_extend[OF assms False] show ?thesis by simp
qed

lemma revmatch_branch_cases:
  assumes "n < length df" "rm_inv df n ms"
  shows "revmatch_branch_of df n ms \<noteq> DifferentGear"
proof
  assume d: "revmatch_branch_of df n ms = DifferentGear"
  then have v: "CurrentGear (df ! n) > 1" "RevMatch (df ! n) \<noteq> -1"
    and ne: "ms \<noteq> []"
    and k: "rm_gear (last ms) \<noteq> CurrentGear (df ! n) - 1"
    and p: "n = 0 \<or> (CurrentGear (df ! (n - 1)) = CurrentGear (df ! n) \<and> RevMatch (df ! (n - 1)) \<noteq> -1)"
    by (auto simp: revmatch_branch_of_def split: if_splits)
  from ne assms(2) have n: "0 < n" by (auto simp: rm_inv_def)
  with p v have "valid (df ! (n - 1))" by (simp add: valid_def)
  with n assms(2) have "rm_gear (last ms) = CurrentGear (df ! (n - 1)) - 1"
    by (simp add: rm_inv_def)
  with p n k show False by simp
qed

lemma rm_step_inv:
  assumes "n < length df" "rm_inv df n ms"
  shows "rm_inv df (Suc n) (revmatch_step df n ms)"
proof (cases "revmatch_branch_of df n ms")
  case NotValid
  then have "\<not> valid (df ! n)"
    by (auto simp: revmatch_branch_of_def valid_def split: if_splits)
  with assms NotValid show ?thesis
    by (simp add: revmatch_step_def rm_inv_def take_Suc_conv_app_nth)
next
  case StartNew
  then have "valid (df ! n)"
    by (auto simp: revmatch_branch_of_def valid_def split: if_splits)
  with assms StartNew show ?thesis
    by (simp add: revmatch_step_def rm_inv_def take_Suc_conv_app_nth
        new_revmatch_segment_def revmatch_points_def)
next
  case Extend
  then have v: "valid (df ! n)" and ne: "ms \<noteq> []"
    and k: "rm_gear (last ms) = CurrentGear (df ! n) - 1"
    by (auto simp: revmatch_branch_of_def valid_def split: if_splits)
  from ne obtain bs l where ms: "ms = bs @ [l]" by (metis append_butlast_last_id)
  from assms(2) ms have len: "length (rm_time l) = length (revmatch l)"
    by (simp add: rm_inv_def)
  have "revmatch_step df n ms = extend_revmatch (df ! n) ms"
    using Extend by (simp add: revmatch_step_def)
  then show ?thesis
    using assms v k len unfolding ms
    by (simp add: extend_revmatch_def rm_inv_def take_Suc_conv_app_nth revmatch_points_def)
next
  case DifferentGear
  with revmatch_branch_cases[OF assms] show ?thesis by simp
qed

lemma run_inv:
  "n \<le> length df \<Longrightarrow> \<exists>st. run df [0..<n] ([], []) = Inr st \<and> seg_inv df n st"
proof (induction n)
  case 0
  show ?case by (simp add: seg_inv_def rpm_inv_0 rm_inv_0)
next
  case (Suc n)
  then obtain st where st: "run df [0..<n] ([], []) = Inr st" "seg_inv df n st" by auto
  from Suc.prems have n: "n < length df" by simp
  from rpm_step_inv[OF n] st(2) obtain rs' where
    rs: "rpm_step df n (fst st) = Inr rs'" "rpm_inv df (Suc n) rs'"
    by (auto simp: seg_inv_def)
  from rm_step_inv[OF n] st(2) have "rm_inv df (Suc n) (revmatch_step df n (snd st))"
    by (simp add: seg_inv_def)
  with rs n st(1) show ?case
    by (simp add: run_snoc step_def seg_inv_def del: upt_Suc)
qed

lemma segmenter_inv: "\<exists>st. segmenter df = Inr st \<and> seg_inv df (length df) st"
  unfolding segmenter_def by (rule run_inv) simp

lemma run_inv_st:
  assumes "n \<le> length df" "run df [0..<n] ([], []) = Inr st"
  shows "seg_inv df n st"
  using run_inv[OF assms(1)] assms(2) by auto

lemmas segmenter_eval =
  segmenter_def step_def rpm_step_def extend_rpm_def new_rpm_segment_def revmatch_step_def
  revmatch_branch_of_def extend_revmatch_def new_revmatch_segment_def

lemma boundary_filter:
  "0 < n \<Longrightarrow> filter (boundary df) [0..<n] =
     0 # filter (\<lambda>i. CurrentGear (df ! i) \<noteq> CurrentGear (df ! (i - 1))) [1..<n]"
proof -
  assume n: "0 < n"
  have "filter (boundary df) [1..<n] =
        filter (\<lambda>i. CurrentGear (df ! i) \<noteq> CurrentGear (df ! (i - 1))) [1..<n]"
    by (rule filter_cong) (auto simp: boundary_def)
  moreover from n have "[0..<n] = 0 # [1..<n]" by (simp add: upt_conv_Cons)
  ultimately show ?thesis by (simp add: boundary_def)
qed

text \<open>
  C1. For every sample sequence the loop returns, and the point lists of its RPM segments,
  concatenated in segment order, are exactly the (time, rpm) pairs of the samples in input
  order: no sample is dropped, none is duplicated, each lies in exactly one RPM segment.
\<close>
theorem rpm_segments_partition:
  "\<exists>rs ms. segmenter df = Inr (rs, ms) \<and>
     concat (map rpm_points rs) = map (\<lambda>s. (Time s, RPM s)) df"
  using segmenter_inv[of df] by (auto simp: seg_inv_def rpm_inv_def)

theorem rpm_segments_partition_witness:
  "segmenter [\<lparr>Time = 0, RPM = 900, CurrentGear = 1, RevMatch = -1, MPH = 5\<rparr>,
              \<lparr>Time = 1, RPM = 950, CurrentGear = 2, RevMatch = 2000, MPH = 9\<rparr>,
              \<lparr>Time = 2, RPM = 975, CurrentGear = 2, RevMatch = 2100, MPH = 11\<rparr>] =
     Inr ([\<lparr>time = [0], rpm = [900], gear = 1\<rparr>, \<lparr>time = [1, 2], rpm = [950, 975], gear = 2\<rparr>],
          [\<lparr>rm_time = [1, 2], revmatch = [2000, 2100], rm_gear = 1\<rparr>]) \<and>
   concat (map rpm_points
      [\<lparr>time = [0], rpm = [900], gear = 1\<rparr>, \<lparr>time = [1, 2], rpm = [950, 975], gear = 2\<rparr>]) =
     [(0, 900), (1, 950), (2, 975)]"
  using rpm_segments_partition
    [of "[\<lparr>Time = 0, RPM = 900, CurrentGear = 1, RevMatch = -1, MPH = 5\<rparr>,
          \<lparr>Time = 1, RPM = 950, CurrentGear = 2, RevMatch = 2000, MPH = 9\<rparr>,
          \<lparr>Time = 2, RPM = 975, CurrentGear = 2, RevMatch = 2100, MPH = 11\<rparr>]"]
  by (simp add: segmenter_eval rpm_points_def)

text \<open>
  C2. For every sample sequence, the points of the rev-match segments, each tagged with the
  key of its segment and read in segment order, are exactly the samples with
  \<open>gear > 1\<close> and \<open>revmatch \<noteq> -1\<close>, in input order, each once, under the key
  \<open>gear - 1\<close>. So a sample that fails the predicate contributes no point, and a sample
  that satisfies it lies in one segment only.
\<close>
theorem revmatch_segments_valid_only:
  "\<exists>rs ms. segmenter df = Inr (rs, ms) \<and>
     concat (map (\<lambda>m. map (Pair (rm_gear m)) (revmatch_points m)) ms) =
       map (\<lambda>s. (CurrentGear s - 1, Time s, RevMatch s)) (filter valid df)"
  using segmenter_inv[of df] by (auto simp: seg_inv_def rm_inv_def)

theorem revmatch_segments_valid_only_witness:
  "segmenter [\<lparr>Time = 0, RPM = 900, CurrentGear = 1, RevMatch = 4000, MPH = 5\<rparr>,
              \<lparr>Time = 1, RPM = 950, CurrentGear = 2, RevMatch = 2000, MPH = 9\<rparr>,
              \<lparr>Time = 2, RPM = 975, CurrentGear = 2, RevMatch = -1, MPH = 11\<rparr>,
              \<lparr>Time = 3, RPM = 980, CurrentGear = 2, RevMatch = 2100, MPH = 12\<rparr>] =
     Inr ([\<lparr>time = [0], rpm = [900], gear = 1\<rparr>,
           \<lparr>time = [1, 2, 3], rpm = [950, 975, 980], gear = 2\<rparr>],
          [\<lparr>rm_time = [1], revmatch = [2000], rm_gear = 1\<rparr>,
           \<lparr>rm_time = [3], revmatch = [2100], rm_gear = 1\<rparr>]) \<and>
   filter valid [\<lparr>Time = 0, RPM = 900, CurrentGear = 1, RevMatch = 4000, MPH = 5\<rparr>,
              \<lparr>Time = 1, RPM = 950, CurrentGear = 2, RevMatch = 2000, MPH = 9\<rparr>,
              \<lparr>Time = 2, RPM = 975, CurrentGear = 2, RevMatch = -1, MPH = 11\<rparr>,
              \<lparr>Time = 3, RPM = 980, CurrentGear = 2, RevMatch = 2100, MPH = 12\<rparr>] =
     [\<lparr>Time = 1, RPM = 950, CurrentGear = 2, RevMatch = 2000, MPH = 9\<rparr>,
      \<lparr>Time = 3, RPM = 980, CurrentGear = 2, RevMatch = 2100, MPH = 12\<rparr>]"
  using revmatch_segments_valid_only
    [of "[\<lparr>Time = 0, RPM = 900, CurrentGear = 1, RevMatch = 4000, MPH = 5\<rparr>,
              \<lparr>Time = 1, RPM = 950, CurrentGear = 2, RevMatch = 2000, MPH = 9\<rparr>,
              \<lparr>Time = 2, RPM = 975, CurrentGear = 2, RevMatch = -1, MPH = 11\<rparr>,
              \<lparr>Time = 3, RPM = 980, CurrentGear = 2, RevMatch = 2100, MPH = 12\<rparr>]"]
  by (simp add: segmenter_eval valid_def)

text \<open>
  C10. On the empty sample sequence the loop body never runs: both segment lists are empty.
\<close>
theorem segmenter_empty: "segmenter [] = Inr ([], [])"
  by (simp add: segmenter_def)

theorem segmenter_empty_witness:
  "(case segmenter [] of Inl e \<Rightarrow> False | Inr st \<Rightarrow> length (fst st) = 0 \<and> length (snd st) = 0)"
  using segmenter_empty by simp

text \<open>
  C5. In every state the loop reaches before processing sample \<open>i\<close>, the final
  \<open>else\<close> of the rev-match part is not taken; and when a valid sample does not meet
  the new-segment condition, the key of the last rev-match segment is \<open>gear[i] - 1\<close>.
\<close>
theorem different_gear_branch_dead:
  "i < length df \<and> run df [0..<i] ([], []) = Inr (rs, ms) \<longrightarrow>
     revmatch_branch_of df i ms \<noteq> DifferentGear \<and>
     (valid (df ! i) \<and>
      \<not> (ms = [] \<or> (0 < i \<and> (CurrentGear (df ! (i - 1)) \<noteq> CurrentGear (df ! i)
                               \<or> RevMatch (df ! (i - 1)) = -1))) \<longrightarrow>
      rm_gear (last ms) = CurrentGear (df ! i) - 1)"
proof (intro impI, elim conjE)
  assume i: "i < length df" and r: "run df [0..<i] ([], []) = Inr (rs, ms)"
  then have inv: "rm_inv df i ms"
    using run_inv_st[of i df "(rs, ms)"] by (simp add: seg_inv_def)
  have d: "revmatch_branch_of df i ms \<noteq> DifferentGear"
    by (rule revmatch_branch_cases[OF i inv])
  then show "revmatch_branch_of df i ms \<noteq> DifferentGear \<and>
     (valid (df ! i) \<and>
      \<not> (ms = [] \<or> (0 < i \<and> (CurrentGear (df ! (i - 1)) \<noteq> CurrentGear (df ! i)
                               \<or> RevMatch (df ! (i - 1)) = -1))) \<longrightarrow>
      rm_gear (last ms) = CurrentGear (df ! i) - 1)"
    by (auto simp: revmatch_branch_of_def valid_def split: if_splits)
qed

theorem different_gear_branch_dead_witness:
  "(1::nat) < length [\<lparr>Time = 0, RPM = 3000, CurrentGear = 2, RevMatch = 5000, MPH = 30\<rparr>,
       \<lparr>Time = 1, RPM = 3100, CurrentGear = 2, RevMatch = 5200, MPH = 31\<rparr>] \<and>
   run [\<lparr>Time = 0, RPM = 3000, CurrentGear = 2, RevMatch = 5000, MPH = 30\<rparr>,
       \<lparr>Time = 1, RPM = 3100, CurrentGear = 2, RevMatch = 5200, MPH = 31\<rparr>] [0..<1] ([], []) =
     Inr ([\<lparr>time = [0], rpm = [3000], gear = 2\<rparr>],
          [\<lparr>rm_time = [0], revmatch = [5000], rm_gear = 1\<rparr>]) \<and>
   revmatch_branch_of [\<lparr>Time = 0, RPM = 3000, CurrentGear = 2, RevMatch = 5000, MPH = 30\<rparr>,
       \<lparr>Time = 1, RPM = 3100, CurrentGear = 2, RevMatch = 5200, MPH = 31\<rparr>] 1
       [\<lparr>rm_time = [0], revmatch = [5000], rm_gear = 1\<rparr>] = Extend"
  using different_gear_branch_dead
    [of 1 "[\<lparr>Time = 0, RPM = 3000, CurrentGear = 2, RevMatch = 5000, MPH = 30\<rparr>,
       \<lparr>Time = 1, RPM = 3100, CurrentGear = 2, RevMatch = 5200, MPH = 31\<rparr>]"
      "[\<lparr>time = [0], rpm = [3000], gear = 2\<rparr>]"
      "[\<lparr>rm_time = [0], revmatch = [5000], rm_gear = 1\<rparr>]"]
  by (simp add: segmenter_eval valid_def eval_nat_numeral)

text \<open>
  C4. For a non-empty sample sequence the number of RPM segments is the number of indices
  \<open>i > 0\<close> with \<open>gear[i] \<noteq> gear[i-1]\<close> plus one; the segments are keyed by the gear
  of sample 0 and of each such index, in order, and each begins with the point of that
  sample. Gears \<open>[1,1,2,2,1]\<close> give keys \<open>[1,2,1]\<close> and lengths \<open>[2,2,1]\<close>.
\<close>
theorem rpm_segment_count:
  "(df \<noteq> [] \<longrightarrow>
      (\<exists>rs ms. segmenter df = Inr (rs, ms) \<and>
         length rs =
           length (filter (\<lambda>i. CurrentGear (df ! i) \<noteq> CurrentGear (df ! (i - 1))) [1..<length df]) + 1 \<and>
         map gear rs =
           map (\<lambda>i. CurrentGear (df ! i))
             (0 # filter (\<lambda>i. CurrentGear (df ! i) \<noteq> CurrentGear (df ! (i - 1))) [1..<length df]) \<and>
         map (\<lambda>s. hd (rpm_points s)) rs =
           map (\<lambda>i. (Time (df ! i), RPM (df ! i)))
             (0 # filter (\<lambda>i. CurrentGear (df ! i) \<noteq> CurrentGear (df ! (i - 1))) [1..<length df]))) \<and>
   (map CurrentGear ex = [1, 1, 2, 2, 1] \<longrightarrow>
      (\<exists>rs ms. segmenter ex = Inr (rs, ms) \<and> map gear rs = [1, 2, 1] \<and>
         map (\<lambda>s. length (rpm_points s)) rs = [2, 2, 1]))"
proof (intro conjI impI)
  assume ne: "df \<noteq> []"
  obtain rs ms where s: "segmenter df = Inr (rs, ms)" and inv: "rpm_inv df (length df) rs"
    using segmenter_inv[of df] by (auto simp: seg_inv_def)
  let ?ch = "filter (\<lambda>i. CurrentGear (df ! i) \<noteq> CurrentGear (df ! (i - 1))) [1..<length df]"
  from ne have b: "filter (boundary df) [0..<length df] = 0 # ?ch"
    by (simp add: boundary_filter)
  from inv have k: "map gear rs = map (\<lambda>i. CurrentGear (df ! i)) (0 # ?ch)"
    and h: "map (\<lambda>s. hd (rpm_points s)) rs = map (\<lambda>i. (Time (df ! i), RPM (df ! i))) (0 # ?ch)"
    unfolding b[symmetric] by (simp_all add: rpm_inv_def)
  from k have "length (map gear rs) = length (map (\<lambda>i. CurrentGear (df ! i)) (0 # ?ch))"
    by simp
  then have l: "length rs = length ?ch + 1" by simp
  from s l k h show "\<exists>rs ms. segmenter df = Inr (rs, ms) \<and> length rs = length ?ch + 1 \<and>
      map gear rs = map (\<lambda>i. CurrentGear (df ! i)) (0 # ?ch) \<and>
      map (\<lambda>s. hd (rpm_points s)) rs = map (\<lambda>i. (Time (df ! i), RPM (df ! i))) (0 # ?ch)"
    by blast
next
  assume "map CurrentGear ex = [1, 1, 2, 2, 1]"
  then obtain a b c d e where "ex = [a, b, c, d, e]"
    "CurrentGear a = 1" "CurrentGear b = 1" "CurrentGear c = 2" "CurrentGear d = 2" "CurrentGear e = 1"
    by (auto simp: map_eq_Cons_conv)
  then show "\<exists>rs ms. segmenter ex = Inr (rs, ms) \<and> map gear rs = [1, 2, 1] \<and>
         map (\<lambda>s. length (rpm_points s)) rs = [2, 2, 1]"
    by (simp add: segmenter_eval rpm_points_def)
qed

theorem rpm_segment_count_witness:
  "[\<lparr>Time = 0, RPM = 900, CurrentGear = 1, RevMatch = -1, MPH = 5\<rparr>,
    \<lparr>Time = 1, RPM = 950, CurrentGear = 1, RevMatch = -1, MPH = 9\<rparr>,
    \<lparr>Time = 2, RPM = 975, CurrentGear = 2, RevMatch = 2100, MPH = 11\<rparr>,
    \<lparr>Time = 3, RPM = 980, CurrentGear = 2, RevMatch = 2100, MPH = 11\<rparr>,
    \<lparr>Time = 4, RPM = 990, CurrentGear = 1, RevMatch = -1, MPH = 11\<rparr>] \<noteq> [] \<and>
   segmenter
    [\<lparr>Time = 0, RPM = 900, CurrentGear = 1, RevMatch = -1, MPH = 5\<rparr>,
    \<lparr>Time = 1, RPM = 950, CurrentGear = 1, RevMatch = -1, MPH = 9\<rparr>,
    \<lparr>Time = 2, RPM = 975, CurrentGear = 2, RevMatch = 2100, MPH = 11\<rparr>,
    \<lparr>Time = 3, RPM = 980, CurrentGear = 2, RevMatch = 2100, MPH = 11\<rparr>,
    \<lparr>Time = 4, RPM = 990, CurrentGear = 1, RevMatch = -1, MPH = 11\<rparr>] =
   Inr ([\<lparr>time = [0, 1], rpm = [900, 950], gear = 1\<rparr>,
         \<lparr>time = [2, 3], rpm = [975, 980], gear = 2\<rparr>,
         \<lparr>time = [4], rpm = [990], gear = 1\<rparr>],
        [\<lparr>rm_time = [2, 3], revmatch = [2100, 2100], rm_gear = 1\<rparr>])"
  using rpm_segment_count
    [of "[\<lparr>Time = 0, RPM = 900, CurrentGear = 1, RevMatch = -1, MPH = 5\<rparr>,
    \<lparr>Time = 1, RPM = 950, CurrentGear = 1, RevMatch = -1, MPH = 9\<rparr>,
    \<lparr>Time = 2, RPM = 975, CurrentGear = 2, RevMatch = 2100, MPH = 11\<rparr>,
    \<lparr>Time = 3, RPM = 980, CurrentGear = 2, RevMatch = 2100, MPH = 11\<rparr>,
    \<lparr>Time = 4, RPM = 990, CurrentGear = 1, RevMatch = -1, MPH = 11\<rparr>]"
     "[\<lparr>Time = 0, RPM = 900, CurrentGear = 1, RevMatch = -1, MPH = 5\<rparr>,
    \<lparr>Time = 1, RPM = 950, CurrentGear = 1, RevMatch = -1, MPH = 9\<rparr>,
    \<lparr>Time = 2, RPM = 975, CurrentGear = 2, RevMatch = 2100, MPH = 11\<rparr>,
    \<lparr>Time = 3, RPM = 980, CurrentGear = 2, RevMatch = 2100, MPH = 11\<rparr>,
    \<lparr>Time = 4, RPM = 990, CurrentGear = 1, RevMatch = -1, MPH = 11\<rparr>]"]
  by (simp add: segmenter_eval)

text \<open>
  C3. When the loop reaches a valid sample \<open>i\<close> with rev-match segments \<open>ms\<close>, it
  appends a new segment keyed \<open>gear[i] - 1\<close> if there is no segment yet, or the previous
  sample has another gear, or the previous sample's rev-match is \<open>-1\<close>; otherwise it
  appends the point to the last segment. Samples with (gear, revmatch) =
  \<open>[(2,5000),(2,5200),(3,-1),(3,6000)]\<close> give two segments: key 1 with the first two
  points, key 2 with the last.
\<close>
theorem revmatch_boundary_rule:
  "(i < length df \<and> valid (df ! i) \<and> run df [0..<i] ([], []) = Inr (rs, ms) \<longrightarrow>
      (\<exists>rs'. run df [0..<Suc i] ([], []) =
         Inr (rs',
           if ms = [] \<or> (0 < i \<and> (CurrentGear (df ! (i - 1)) \<noteq> CurrentGear (df ! i)
                                    \<or> RevMatch (df ! (i - 1)) = -1))
           then ms @ [\<lparr>rm_time = [Time (df ! i)], revmatch = [RevMatch (df ! i)],
                       rm_gear = CurrentGear (df ! i) - 1\<rparr>]
           else butlast ms @
                  [(last ms)\<lparr>rm_time := rm_time (last ms) @ [Time (df ! i)],
                              revmatch := revmatch (last ms) @ [RevMatch (df ! i)]\<rparr>]))) \<and>
   (map (\<lambda>s. (CurrentGear s, RevMatch s)) ex = [(2, 5000), (2, 5200), (3, -1), (3, 6000)] \<longrightarrow>
      (\<exists>rs. segmenter ex =
         Inr (rs,
           [\<lparr>rm_time = [Time (ex ! 0), Time (ex ! 1)], revmatch = [5000, 5200], rm_gear = 1\<rparr>,
            \<lparr>rm_time = [Time (ex ! 3)], revmatch = [6000], rm_gear = 2\<rparr>])))"
proof (intro conjI impI, elim conjE)
  assume i: "i < length df" and v: "valid (df ! i)"
    and r: "run df [0..<i] ([], []) = Inr (rs, ms)"
  let ?trigger = "ms = [] \<or> (0 < i \<and> (CurrentGear (df ! (i - 1)) \<noteq> CurrentGear (df ! i)
                                    \<or> RevMatch (df ! (i - 1)) = -1))"
  let ?new = "ms @ [\<lparr>rm_time = [Time (df ! i)], revmatch = [RevMatch (df ! i)],
                       rm_gear = CurrentGear (df ! i) - 1\<rparr>]"
  let ?ext = "butlast ms @
                  [(last ms)\<lparr>rm_time := rm_time (last ms) @ [Time (df ! i)],
                              revmatch := revmatch (last ms) @ [RevMatch (df ! i)]\<rparr>]"
  from i r have inv: "rpm_inv df i rs" "rm_inv df i ms"
    using run_inv_st[of i df "(rs, ms)"] by (simp_all add: seg_inv_def)
  from rpm_step_inv[OF i inv(1)] obtain rs' where rs': "rpm_step df i rs = Inr rs'" by blast
  have d: "revmatch_branch_of df i ms \<noteq> DifferentGear"
    by (rule revmatch_branch_cases[OF i inv(2)])
  have m: "revmatch_step df i ms = (if ?trigger then ?new else ?ext)"
  proof (cases ?trigger)
    case True
    with v have "revmatch_branch_of df i ms = StartNew"
      by (auto simp: revmatch_branch_of_def valid_def)
    with True show ?thesis by (simp add: revmatch_step_def new_revmatch_segment_def)
  next
    case False
    with v d have "revmatch_branch_of df i ms = Extend"
      by (auto simp: revmatch_branch_of_def valid_def split: if_splits)
    then have "revmatch_step df i ms = ?ext"
      by (simp add: revmatch_step_def extend_revmatch_def)
    with False show ?thesis by (simp only: if_not_P if_False)
  qed
  from i r rs' have "run df [0..<Suc i] ([], []) = Inr (rs', revmatch_step df i ms)"
    by (simp add: run_snoc step_def del: upt_Suc)
  with m show "\<exists>rs'. run df [0..<Suc i] ([], []) = Inr (rs', if ?trigger then ?new else ?ext)"
    by simp
next
  assume "map (\<lambda>s. (CurrentGear s, RevMatch s)) ex = [(2, 5000), (2, 5200), (3, -1), (3, 6000)]"
  then obtain a b c d where "ex = [a, b, c, d]"
    "CurrentGear a = 2" "RevMatch a = 5000" "CurrentGear b = 2" "RevMatch b = 5200"
    "CurrentGear c = 3" "RevMatch c = -1" "CurrentGear d = 3" "RevMatch d = 6000"
    by (auto simp: map_eq_Cons_conv)
  then show "\<exists>rs. segmenter ex =
         Inr (rs,
           [\<lparr>rm_time = [Time (ex ! 0), Time (ex ! 1)], revmatch = [5000, 5200], rm_gear = 1\<rparr>,
            \<lparr>rm_time = [Time (ex ! 3)], revmatch = [6000], rm_gear = 2\<rparr>])"
    by (simp add: segmenter_eval)
qed

theorem revmatch_boundary_rule_witness:
  "(3::nat) < length [\<lparr>Time = 0, RPM = 3000, CurrentGear = 2, RevMatch = 5000, MPH = 30\<rparr>,
       \<lparr>Time = 1, RPM = 3100, CurrentGear = 2, RevMatch = 5200, MPH = 31\<rparr>,
       \<lparr>Time = 2, RPM = 2500, CurrentGear = 3, RevMatch = -1, MPH = 32\<rparr>,
       \<lparr>Time = 3, RPM = 2600, CurrentGear = 3, RevMatch = 6000, MPH = 33\<rparr>] \<and>
   valid \<lparr>Time = 3, RPM = 2600, CurrentGear = 3, RevMatch = 6000, MPH = 33\<rparr> \<and>
   run [\<lparr>Time = 0, RPM = 3000, CurrentGear = 2, RevMatch = 5000, MPH = 30\<rparr>,
       \<lparr>Time = 1, RPM = 3100, CurrentGear = 2, RevMatch = 5200, MPH = 31\<rparr>,
       \<lparr>Time = 2, RPM = 2500, CurrentGear = 3, RevMatch = -1, MPH = 32\<rparr>,
       \<lparr>Time = 3, RPM = 2600, CurrentGear = 3, RevMatch = 6000, MPH = 33\<rparr>] [0..<3] ([], []) =
     Inr ([\<lparr>time = [0, 1], rpm = [3000, 3100], gear = 2\<rparr>, \<lparr>time = [2], rpm = [2500], gear = 3\<rparr>],
          [\<lparr>rm_time = [0, 1], revmatch = [5000, 5200], rm_gear = 1\<rparr>]) \<and>
   segmenter [\<lparr>Time = 0, RPM = 3000, CurrentGear = 2, RevMatch = 5000, MPH = 30\<rparr>,
       \<lparr>Time = 1, RPM = 3100, CurrentGear = 2, RevMatch = 5200, MPH = 31\<rparr>,
       \<lparr>Time = 2, RPM = 2500, CurrentGear = 3, RevMatch = -1, MPH = 32\<rparr>,
       \<lparr>Time = 3, RPM = 2600, CurrentGear = 3, RevMatch = 6000, MPH = 33\<rparr>] =
     Inr ([\<lparr>time = [0, 1], rpm = [3000, 3100], gear = 2\<rparr>,
           \<lparr>time = [2, 3], rpm = [2500, 2600], gear = 3\<rparr>],
          [\<lparr>rm_time = [0, 1], revmatch = [5000, 5200], rm_gear = 1\<rparr>,
           \<lparr>rm_time = [3], revmatch = [6000], rm_gear = 2\<rparr>])"
  using revmatch_boundary_rule
    [of 3 "[\<lparr>Time = 0, RPM = 3000, CurrentGear = 2, RevMatch = 5000, MPH = 30\<rparr>,
       \<lparr>Time = 1, RPM = 3100, CurrentGear = 2, RevMatch = 5200, MPH = 31\<rparr>,
       \<lparr>Time = 2, RPM = 2500, CurrentGear = 3, RevMatch = -1, MPH = 32\<rparr>,
       \<lparr>Time = 3, RPM = 2600, CurrentGear = 3, RevMatch = 6000, MPH = 33\<rparr>]"
      "[\<lparr>time = [0, 1], rpm = [3000, 3100], gear = 2\<rparr>, \<lparr>time = [2], rpm = [2500], gear = 3\<rparr>]"
      "[\<lparr>rm_time = [0, 1], revmatch = [5000, 5200], rm_gear = 1\<rparr>]"
      "[\<lparr>Time = 0, RPM = 3000, CurrentGear = 2, RevMatch = 5000, MPH = 30\<rparr>,
       \<lparr>Time = 1, RPM = 3100, CurrentGear = 2, RevMatch = 5200, MPH = 31\<rparr>,
       \<lparr>Time = 2, RPM = 2500, CurrentGear = 3, RevMatch = -1, MPH = 32\<rparr>,
       \<lparr>Time = 3, RPM = 2600, CurrentGear = 3, RevMatch = 6000, MPH = 33\<rparr>]"]
  by (simp add: segmenter_eval valid_def eval_nat_numeral)

section \<open>Properties of the configuration loader\<close>










section \<open>Properties of the legend\<close>

subsection \<open>The decimal text of a key\<close>

lemma digit_char:
  "d < 10 \<Longrightarrow> is_digit (char_of (48 + d)) \<and> digit_val (char_of (48 + d)) = int d"
  by (simp add: is_digit_def digit_val_def)

lemma digits_of_digits: "\<forall>c \<in> set (digits_of n). is_digit c"
proof (induction n rule: digits_of.induct)
  case (1 n)
  show ?case
  proof (cases "n < 10")
    case True
    then show ?thesis by (subst digits_of.simps) (simp add: digit_char)
  next
    case False
    with 1 have "\<forall>c \<in> set (digits_of (n div 10)). is_digit c" by simp
    moreover have "is_digit (char_of (48 + n mod 10))" by (simp add: digit_char)
    ultimately show ?thesis using False by (subst digits_of.simps) simp
  qed
qed

lemma digits_of_nonempty: "digits_of n \<noteq> []"
  by (subst digits_of.simps) simp

lemma digits_foldl:
  "\<forall>c \<in> set xs. is_digit c \<Longrightarrow>
     digits xs acc = Inr (foldl (\<lambda>a c. 10 * a + digit_val c) acc xs)"
  by (induction xs arbitrary: acc) simp_all

lemma digits_of_value: "foldl (\<lambda>a c. 10 * a + digit_val c) 0 (digits_of n) = int n"
proof (induction n rule: digits_of.induct)
  case (1 n)
  show ?case
  proof (cases "n < 10")
    case True
    then show ?thesis by (subst digits_of.simps) (simp add: digit_char)
  next
    case False
    with 1 have "foldl (\<lambda>a c. 10 * a + digit_val c) 0 (digits_of (n div 10)) = int (n div 10)"
      by simp
    moreover have "digit_val (char_of (48 + n mod 10)) = int (n mod 10)"
      by (simp add: digit_char)
    ultimately show ?thesis using False
      by (subst digits_of.simps) (simp add: zdiv_int zmod_int)
  qed
qed

lemma unsigned_digits_of: "unsigned (digits_of n) = Inr (int n)"
proof -
  have "is_digit (hd (digits_of n))"
    using digits_of_digits[of n] digits_of_nonempty[of n] by (simp add: hd_in_set)
  then show ?thesis
    by (simp add: unsigned_def digits_of_nonempty digits_foldl digits_of_digits digits_of_value)
qed

lemma strip_id:
  assumes "s \<noteq> []" "\<not> is_space (hd s)" "\<not> is_space (last s)"
  shows "strip s = s"
proof -
  from assms obtain c cs where s: "s = c # cs" by (cases s) auto
  with assms have a: "dropWhile is_space s = s" by simp
  from assms have "rev s \<noteq> []" "\<not> is_space (hd (rev s))" by (simp_all add: hd_rev)
  then have "dropWhile is_space (rev s) = rev s" by (cases "rev s") auto
  with a show ?thesis by (simp add: strip_def)
qed

lemma digit_not_space: "is_digit c \<Longrightarrow> \<not> is_space c"
  by (auto simp: is_digit_def is_space_def)

lemma digit_not_sign: "is_digit c \<Longrightarrow> c \<noteq> CHR ''-'' \<and> c \<noteq> CHR ''+''"
  by (auto simp: is_digit_def)

lemma digits_of_ends:
  "is_digit (hd (digits_of n)) \<and> is_digit (last (digits_of n))"
  using digits_of_digits[of n] digits_of_nonempty[of n] by (simp add: hd_in_set)

lemma py_int_digits_of: "py_int (digits_of n) = Inr (int n)"
proof -
  have st: "strip (digits_of n) = digits_of n"
    using digits_of_nonempty[of n] digits_of_ends[of n]
    by (intro strip_id) (simp_all add: digit_not_space)
  obtain c cs where cs: "digits_of n = c # cs"
    using digits_of_nonempty[of n] by (cases "digits_of n") auto
  with digits_of_ends[of n] have "c \<noteq> CHR ''-''" "c \<noteq> CHR ''+''"
    by (simp_all add: digit_not_sign)
  moreover have "unsigned (c # cs) = Inr (int n)"
    using unsigned_digits_of[of n] by (simp add: cs)
  moreover from st have "strip (c # cs) = c # cs" by (simp add: cs)
  ultimately show ?thesis by (simp add: py_int_def cs)
qed

lemma py_int_minus_digits_of: "py_int (CHR ''-'' # digits_of n) = Inr (- int n)"
proof -
  have m: "\<not> is_space (CHR ''-'')" by (simp add: is_space_def)
  have "strip (CHR ''-'' # digits_of n) = CHR ''-'' # digits_of n"
    using digits_of_nonempty[of n] digits_of_ends[of n] m
    by (intro strip_id) (simp_all add: digit_not_space)
  then show ?thesis by (simp add: py_int_def unsigned_digits_of)
qed

lemma py_int_str: "py_int (str g) = Inr g"
  by (simp add: str_def py_int_digits_of py_int_minus_digits_of)

lemma char_of_48: "char_of (48::nat) = CHR ''0''"
  by code_simp

lemma digits_of_leading_zero: "hd (digits_of n) = CHR ''0'' \<Longrightarrow> digits_of n = ''0''"
proof (induction n rule: digits_of.induct)
  case (1 n)
  show ?case
  proof (cases "n < 10")
    case True
    with "1.prems" have "char_of (48 + n) = CHR ''0''"
      by (subst (asm) digits_of.simps) simp
    then have "of_char (char_of (48 + n) :: char) = (of_char (CHR ''0'') :: nat)" by simp
    with True have "n = 0" by simp
    then show ?thesis by (subst digits_of.simps) (simp add: char_of_48)
  next
    case False
    with "1.prems" have "hd (digits_of (n div 10)) = CHR ''0''"
      by (subst (asm) digits_of.simps) (simp add: digits_of_nonempty)
    with 1 False have "digits_of (n div 10) = ''0''" by simp
    with digits_of_value[of "n div 10"] have "int (n div 10) = 0"
      by (simp add: digit_val_def)
    with False show ?thesis by simp
  qed
qed

lemma str_nonneg: "0 \<le> g \<Longrightarrow> str g = digits_of (nat g)"
  by (simp add: str_def)

lemma str_neg: "g < 0 \<Longrightarrow> str g = CHR ''-'' # str (- g)"
  by (simp add: str_def)

subsection \<open>The entries\<close>

lemma all_gears_set: "set (all_gears rs ms) = gear ` set rs \<union> rm_gear ` set ms"
  by (simp add: all_gears_def)

lemma all_gears_length: "length (all_gears rs ms) = card (gear ` set rs \<union> rm_gear ` set ms)"
  by (simp add: all_gears_def)

lemma all_gears_sorted: "sorted (all_gears rs ms) \<and> distinct (all_gears rs ms)"
  by (simp add: all_gears_def)

lemma legend_nth:
  "k < length (all_gears rs ms) \<Longrightarrow>
     legend dt rs ms ! k =
       (legend_element ms (all_gears rs ms ! k),
        ''Gear '' @ render_key dt (all_gears rs ms ! k))"
  by (simp add: legend_def legend_elements_def gear_labels_def)

lemma legend_element_dashed:
  "(\<exists>l \<in> set (legend_element ms g). linestyle l = ''--'') \<longleftrightarrow> g \<in> rm_gear ` set ms"
  by (simp add: legend_element_def)

lemma legend_element_solid:
  "hd (legend_element ms g) = \<lparr>color = color_of g, linestyle = ''-''\<rparr>"
  by (simp add: legend_element_def)

text \<open>
  C9. The legend has one entry for each distinct gear key of the two segment lists together,
  also when a key occurs in both, and the entries follow the keys in ascending order. Each
  entry is labelled \<open>Gear\<close> followed by the text of its key in the f-string, for a key
  that the row type holds exactly: for an \<open>int64\<close> key the canonical decimal numeral
  (digits only after an optional minus sign, no leading zero, read back by \<open>int\<close> as the
  key), for a \<open>float64\<close> key that numeral followed by \<open>.0\<close>. Each entry starts with the
  solid line in the colour of its key, and holds a dashed line exactly when its key is the key
  of a rev-match segment.
\<close>
theorem legend_one_entry_per_gear:
  "length (legend dt rs ms) = card (gear ` set rs \<union> rm_gear ` set ms) \<and>
   set (all_gears rs ms) = gear ` set rs \<union> rm_gear ` set ms \<and>
   sorted (all_gears rs ms) \<and> distinct (all_gears rs ms) \<and>
   (\<forall>k < length (legend dt rs ms).
      (representable dt (all_gears rs ms ! k) \<longrightarrow>
         snd (legend dt rs ms ! k) = ''Gear '' @ render_key dt (all_gears rs ms ! k)) \<and>
      hd (fst (legend dt rs ms ! k)) =
        \<lparr>color = color_of (all_gears rs ms ! k), linestyle = ''-''\<rparr> \<and>
      ((\<exists>l \<in> set (fst (legend dt rs ms ! k)). linestyle l = ''--'') \<longleftrightarrow>
         all_gears rs ms ! k \<in> rm_gear ` set ms)) \<and>
   py_int (render_key Int64 g) = Inr g \<and>
   (0 \<le> g \<longrightarrow>
      (\<forall>c \<in> set (render_key Int64 g). is_digit c) \<and>
      (hd (render_key Int64 g) = CHR ''0'' \<longrightarrow> render_key Int64 g = ''0'')) \<and>
   (g < 0 \<longrightarrow> render_key Int64 g = CHR ''-'' # render_key Int64 (- g)) \<and>
   render_key Float64 g = render_key Int64 g @ ''.0''"
proof -
  have len: "length (legend dt rs ms) = length (all_gears rs ms)"
    by (simp add: legend_def legend_elements_def gear_labels_def)
  have ent: "\<forall>k < length (legend dt rs ms).
      (representable dt (all_gears rs ms ! k) \<longrightarrow>
         snd (legend dt rs ms ! k) = ''Gear '' @ render_key dt (all_gears rs ms ! k)) \<and>
      hd (fst (legend dt rs ms ! k)) =
        \<lparr>color = color_of (all_gears rs ms ! k), linestyle = ''-''\<rparr> \<and>
      ((\<exists>l \<in> set (fst (legend dt rs ms ! k)). linestyle l = ''--'') \<longleftrightarrow>
         all_gears rs ms ! k \<in> rm_gear ` set ms)"
    unfolding len by (simp add: legend_nth legend_element_dashed legend_element_solid)
  have rt: "py_int (render_key Int64 g) = Inr g"
    by (simp add: render_key_def py_int_str)
  have pos: "0 \<le> g \<longrightarrow>
      (\<forall>c \<in> set (render_key Int64 g). is_digit c) \<and>
      (hd (render_key Int64 g) = CHR ''0'' \<longrightarrow> render_key Int64 g = ''0'')"
    using digits_of_digits[of "nat g"] digits_of_leading_zero[of "nat g"]
    by (simp add: render_key_def str_nonneg)
  have neg: "g < 0 \<longrightarrow> render_key Int64 g = CHR ''-'' # render_key Int64 (- g)"
    by (simp add: render_key_def str_neg)
  have fl: "render_key Float64 g = render_key Int64 g @ ''.0''"
    by (simp add: render_key_def)
  from len ent rt pos neg fl
    all_gears_set[of rs ms] all_gears_length[of rs ms] all_gears_sorted[of rs ms]
  show ?thesis by simp
qed

theorem legend_one_entry_per_gear_witness:
  "legend Float64 [\<lparr>time = [0, 1], rpm = [900, 950], gear = 2\<rparr>,
      \<lparr>time = [2], rpm = [975], gear = 10\<rparr>,
      \<lparr>time = [3], rpm = [990], gear = 1\<rparr>,
      \<lparr>time = [4], rpm = [995], gear = 2\<rparr>] [\<lparr>rm_time = [0, 1], revmatch = [2000, 2100], rm_gear = 1\<rparr>,
      \<lparr>rm_time = [4], revmatch = [2200], rm_gear = 1\<rparr>] =
     [([\<lparr>color = ''#E74C3C'', linestyle = ''-''\<rparr>, \<lparr>color = ''#E74C3C'', linestyle = ''--''\<rparr>],
       ''Gear 1.0''),
      ([\<lparr>color = ''#F39C12'', linestyle = ''-''\<rparr>], ''Gear 2.0''),
      ([\<lparr>color = ''#000000'', linestyle = ''-''\<rparr>], ''Gear 10.0'')] \<and>
   legend Int64 [\<lparr>time = [0, 1], rpm = [900, 950], gear = 2\<rparr>,
      \<lparr>time = [2], rpm = [975], gear = 10\<rparr>,
      \<lparr>time = [3], rpm = [990], gear = 1\<rparr>,
      \<lparr>time = [4], rpm = [995], gear = 2\<rparr>] [\<lparr>rm_time = [0, 1], revmatch = [2000, 2100], rm_gear = 1\<rparr>,
      \<lparr>rm_time = [4], revmatch = [2200], rm_gear = 1\<rparr>] =
     [([\<lparr>color = ''#E74C3C'', linestyle = ''-''\<rparr>, \<lparr>color = ''#E74C3C'', linestyle = ''--''\<rparr>],
       ''Gear 1''),
      ([\<lparr>color = ''#F39C12'', linestyle = ''-''\<rparr>], ''Gear 2''),
      ([\<lparr>color = ''#000000'', linestyle = ''-''\<rparr>], ''Gear 10'')] \<and>
   representable Float64 1 \<and> representable Float64 2 \<and> representable Float64 10 \<and>
   card (gear ` set [\<lparr>time = [0, 1], rpm = [900, 950], gear = 2\<rparr>,
      \<lparr>time = [2], rpm = [975], gear = 10\<rparr>,
      \<lparr>time = [3], rpm = [990], gear = 1\<rparr>,
      \<lparr>time = [4], rpm = [995], gear = 2\<rparr>] \<union> rm_gear ` set [\<lparr>rm_time = [0, 1], revmatch = [2000, 2100], rm_gear = 1\<rparr>,
      \<lparr>rm_time = [4], revmatch = [2200], rm_gear = 1\<rparr>]) = 3 \<and>
   py_int ''10'' = Inr 10"
proof -
  let ?rs = "[\<lparr>time = [0, 1], rpm = [900, 950], gear = 2\<rparr>,
      \<lparr>time = [2], rpm = [975], gear = 10\<rparr>,
      \<lparr>time = [3], rpm = [990], gear = 1\<rparr>,
      \<lparr>time = [4], rpm = [995], gear = 2\<rparr>]"
  let ?ms = "[\<lparr>rm_time = [0, 1], revmatch = [2000, 2100], rm_gear = 1\<rparr>,
      \<lparr>rm_time = [4], revmatch = [2200], rm_gear = 1\<rparr>]"
  have f: "legend Float64 ?rs ?ms =
     [([\<lparr>color = ''#E74C3C'', linestyle = ''-''\<rparr>, \<lparr>color = ''#E74C3C'', linestyle = ''--''\<rparr>],
       ''Gear 1.0''),
      ([\<lparr>color = ''#F39C12'', linestyle = ''-''\<rparr>], ''Gear 2.0''),
      ([\<lparr>color = ''#000000'', linestyle = ''-''\<rparr>], ''Gear 10.0'')]"
    by code_simp
  have i: "legend Int64 ?rs ?ms =
     [([\<lparr>color = ''#E74C3C'', linestyle = ''-''\<rparr>, \<lparr>color = ''#E74C3C'', linestyle = ''--''\<rparr>],
       ''Gear 1''),
      ([\<lparr>color = ''#F39C12'', linestyle = ''-''\<rparr>], ''Gear 2''),
      ([\<lparr>color = ''#000000'', linestyle = ''-''\<rparr>], ''Gear 10'')]"
    by code_simp
  have r: "representable Float64 1" "representable Float64 2" "representable Float64 10"
    by (simp_all add: representable_def)
  have t: "render_key Int64 10 = ''10''"
    by code_simp
  from legend_one_entry_per_gear[of Float64 ?rs ?ms 10]
  have "length (legend Float64 ?rs ?ms) = card (gear ` set ?rs \<union> rm_gear ` set ?ms)"
    and "py_int (render_key Int64 10) = Inr 10"
    by blast+
  with f i r t show ?thesis by simp
qed

section \<open>Properties of the ratio analysis\<close>

lemma theoretical_rpm_error: "theoretical_rpm row = Inl e \<Longrightarrow> e = KeyError"
  by (auto simp: theoretical_rpm_def split: option.splits)

lemma apply_revmatch_missing:
  "\<exists>row \<in> set df. gears (CurrentGear row) = None \<Longrightarrow> apply_revmatch df = Inl KeyError"
proof (induction df)
  case Nil
  then show ?case by simp
next
  case (Cons row df)
  show ?case
  proof (cases "theoretical_rpm row")
    case (Inl e)
    with theoretical_rpm_error[OF Inl] show ?thesis by simp
  next
    case (Inr v)
    then have "gears (CurrentGear row) \<noteq> None"
      by (auto simp: theoretical_rpm_def split: option.splits)
    with Cons.prems have "\<exists>r \<in> set df. gears (CurrentGear r) = None" by auto
    with Cons.IH Inr show ?thesis by simp
  qed
qed

lemma apply_revmatch_present:
  "\<forall>row \<in> set df. gears (CurrentGear row) \<noteq> None \<Longrightarrow>
     \<exists>rows. apply_revmatch df = Inr rows \<and> map CurrentGear rows = map CurrentGear df \<and>
        map RPM rows = map RPM df \<and> map MPH rows = map MPH df"
proof (induction df)
  case Nil
  then show ?case by simp
next
  case (Cons row df)
  then obtain rows where "apply_revmatch df = Inr rows" "map CurrentGear rows = map CurrentGear df"
    "map RPM rows = map RPM df" "map MPH rows = map MPH df"
    by auto
  moreover from Cons.prems obtain r where "gears (CurrentGear row) = Some r" by auto
  ultimately show ?case by (simp add: theoretical_rpm_def)
qed

lemma get_group_missing:
  "k \<notin> set (map CurrentGear rows) \<Longrightarrow> get_group rows k = Inl KeyError"
  by (auto simp: get_group_def filter_empty_conv)

lemma get_group_error: "get_group rows k = Inl e \<Longrightarrow> e = KeyError"
  by (auto simp: get_group_def split: if_splits)

lemma group_loop_missing:
  "\<exists>i \<in> set is. int i + 1 \<notin> set (map CurrentGear rows) \<Longrightarrow>
     snd (group_loop rows is) = Some KeyError"
proof (induction "is")
  case Nil
  then show ?case by simp
next
  case (Cons i "is")
  show ?case
  proof (cases "get_group rows (int i + 1)")
    case (Inl e)
    with get_group_error[OF Inl] show ?thesis by simp
  next
    case (Inr g)
    then have "int i + 1 \<in> set (map CurrentGear rows)"
      using get_group_missing[of "int i + 1" rows] by auto
    with Cons.prems have "\<exists>j \<in> set is. int j + 1 \<notin> set (map CurrentGear rows)" by auto
    with Cons.IH Inr show ?thesis by simp
  qed
qed

lemma gap_index:
  assumes "finite K" "K \<noteq> {1..int (card K)}"
  shows "\<exists>i < card K. int i + 1 \<notin> K"
proof (rule ccontr)
  assume "\<not> (\<exists>i < card K. int i + 1 \<notin> K)"
  then have all: "\<forall>i < card K. int i + 1 \<in> K" by simp
  have "{1..int (card K)} \<subseteq> K"
  proof
    fix k assume "k \<in> {1..int (card K)}"
    then have "nat (k - 1) < card K" "int (nat (k - 1)) + 1 = k" by auto
    with all show "k \<in> K" by metis
  qed
  moreover have "card K \<le> card {1..int (card K)}" by simp
  ultimately have "{1..int (card K)} = K" using assms(1) by (rule card_seteq[rotated])
  with assms(2) show False by simp
qed

text \<open>
  C7. A row whose gear is not a key of the gear-ratio table makes the lookup raise
  \<open>KeyError\<close> before any group is handled: the run ends there and no default ratio is
  used. When every gear is in the table but the gears present are not exactly \<open>1..N\<close>,
  \<open>N\<close> being the number of distinct gears, the group access raises \<open>KeyError\<close> and ends
  the loop; the missing gear is not passed over.
\<close>
theorem ratio_lookup_failures:
  "((\<exists>row \<in> set df. gears (CurrentGear row) = None) \<longrightarrow>
      ratio_analysis df = ([PrintDtypes], Some KeyError)) \<and>
   ((\<forall>row \<in> set df. gears (CurrentGear row) \<noteq> None) \<and>
      set (map CurrentGear df) \<noteq> {1..int (group_count df)} \<longrightarrow>
      snd (ratio_analysis df) = Some KeyError)"
proof (intro conjI impI)
  assume "\<exists>row \<in> set df. gears (CurrentGear row) = None"
  then have "apply_revmatch df = Inl KeyError" by (rule apply_revmatch_missing)
  then show "ratio_analysis df = ([PrintDtypes], Some KeyError)"
    by (simp add: ratio_analysis_def)
next
  assume a: "(\<forall>row \<in> set df. gears (CurrentGear row) \<noteq> None) \<and>
      set (map CurrentGear df) \<noteq> {1..int (group_count df)}"
  then obtain rows where rows: "apply_revmatch df = Inr rows"
    "map CurrentGear rows = map CurrentGear df"
    using apply_revmatch_present[of df] by auto
  let ?K = "set (map CurrentGear rows)"
  from rows(2) have n: "group_count rows = card ?K" "group_count df = card ?K"
    by (simp_all add: group_count_def)
  from a rows(2) n have "?K \<noteq> {1..int (card ?K)}" by simp
  with gap_index[of ?K] obtain i where "i < card ?K" "int i + 1 \<notin> ?K" by auto
  with n have "\<exists>i \<in> set [0..<group_count rows]. int i + 1 \<notin> set (map CurrentGear rows)"
    by auto
  then have "snd (group_loop rows [0..<group_count rows]) = Some KeyError"
    by (rule group_loop_missing)
  with rows(1) show "snd (ratio_analysis df) = Some KeyError"
    by (simp add: ratio_analysis_def)
qed

theorem ratio_lookup_failures_witness:
  "(\<exists>row \<in> set [\<lparr>Time = 0, RPM = 2000, CurrentGear = 1, RevMatch = -1, MPH = 10\<rparr>,
                  \<lparr>Time = 1, RPM = 2500, CurrentGear = 6, RevMatch = -1, MPH = 70\<rparr>].
      gears (CurrentGear row) = None) \<and>
   ratio_analysis [\<lparr>Time = 0, RPM = 2000, CurrentGear = 1, RevMatch = -1, MPH = 10\<rparr>,
                   \<lparr>Time = 1, RPM = 2500, CurrentGear = 6, RevMatch = -1, MPH = 70\<rparr>] =
     ([PrintDtypes], Some KeyError) \<and>
   list_all (\<lambda>row. gears (CurrentGear row) \<noteq> None)
     [\<lparr>Time = 0, RPM = 2000, CurrentGear = 1, RevMatch = -1, MPH = 10\<rparr>,
                  \<lparr>Time = 1, RPM = 2500, CurrentGear = 3, RevMatch = -1, MPH = 40\<rparr>] \<and>
   group_count [\<lparr>Time = 0, RPM = 2000, CurrentGear = 1, RevMatch = -1, MPH = 10\<rparr>,
                \<lparr>Time = 1, RPM = 2500, CurrentGear = 3, RevMatch = -1, MPH = 40\<rparr>] = 2 \<and>
   snd (ratio_analysis [\<lparr>Time = 0, RPM = 2000, CurrentGear = 1, RevMatch = -1, MPH = 10\<rparr>,
                        \<lparr>Time = 1, RPM = 2500, CurrentGear = 3, RevMatch = -1, MPH = 40\<rparr>]) =
     Some KeyError"
proof -
  let ?d1 = "[\<lparr>Time = 0, RPM = 2000, CurrentGear = 1, RevMatch = -1, MPH = 10\<rparr>,
              \<lparr>Time = 1, RPM = 2500, CurrentGear = 6, RevMatch = -1, MPH = 70\<rparr>]"
  let ?d2 = "[\<lparr>Time = 0, RPM = 2000, CurrentGear = 1, RevMatch = -1, MPH = 10\<rparr>,
              \<lparr>Time = 1, RPM = 2500, CurrentGear = 3, RevMatch = -1, MPH = 40\<rparr>]"
  have a: "\<exists>row \<in> set ?d1. gears (CurrentGear row) = None"
    by (simp add: gears_def)
  have b: "\<forall>row \<in> set ?d2. gears (CurrentGear row) \<noteq> None"
    by code_simp
  have c: "group_count ?d2 = 2"
    by (simp add: group_count_def)
  have "(3::int) \<notin> {1..2}" by simp
  then have "{1, 3} \<noteq> {1..(2::int)}" by blast
  with c have d: "set (map CurrentGear ?d2) \<noteq> {1..int (group_count ?d2)}"
    by simp
  from a ratio_lookup_failures[of ?d1]
  have e: "ratio_analysis ?d1 = ([PrintDtypes], Some KeyError)" by blast
  from b d ratio_lookup_failures[of ?d2]
  have f: "snd (ratio_analysis ?d2) = Some KeyError" by blast
  have l: "list_all (\<lambda>row. gears (CurrentGear row) \<noteq> None) ?d2"
    by code_simp
  from a l c e f show ?thesis by blast
qed










end
